theory Spec2Isabelle
  imports Complex_Main
begin

section \<open>Data model\<close>

text \<open>
  The solver computes on JavaScript numbers. They are modelled by exact rationals:
  every finite double is a rational, and the model replaces rounded arithmetic by exact
  arithmetic. NaN and the infinities are not values of the model; the one place where the
  source uses \<open>Infinity\<close> (the start value of \<open>minRatio\<close>) is an \<open>option\<close>.

  The rows of the tableau are JavaScript arrays, which are shared by reference between
  the live matrix and the recorded trace steps. A row is therefore an address into a
  store of rows, and \<open>matrix\<close> is the list of the addresses of its rows. The store is
  the list of all rows allocated so far; the address of a row is its position, and
  a new array is appended to it.
\<close>

type_synonym number = rat
type_synonym addr = nat
type_synonym heap = "number list list"

datatype OptimizationType = OptMAX | OptMIN

datatype Relation = LE | GE | EQ

record Constraint =
  cid :: string
  coefficients :: "number list"
  relation :: Relation
  rhs :: number

datatype SolverMethod = SIMPLEX | BIG_M | TWO_PHASE

datatype Status = OPTIMAL | UNBOUNDED | INFEASIBLE | ERROR

text \<open>
  The three description templates of the pivot engine, with the values they interpolate:
  \<^item> \<open>OptimalFound phase\<close>: "Solucion Optima encontrada (Fase phase | Final)."
  \<^item> \<open>UnboundedDetected v\<close>: "Solucion no acotada detectada. Variable entrante v no
    tiene pivote positivo."
  \<^item> \<open>Iteration k e l r c\<close>: "Iteracion k: Entra e, Sale l. Pivote en fila r, col c."
\<close>

datatype Description =
    OptimalFound nat
  | UnboundedDetected string
  | Iteration nat string string nat nat

text \<open>\<open>rowCoefficients\<close> is the field \<open>coefficients: matrix[r]\<close>: a reference to the row.\<close>

record TableauRow =
  basicVar :: string
  rowCoefficients :: addr
  rowRhs :: number

record TableauStep =
  stepIndex :: nat
  description :: Description
  tableau :: "TableauRow list"
  headers :: "string list"
  basicVars :: "string list"
  pivotRow :: "nat option"
  pivotCol :: "nat option"
  enteringVar :: "string option"
  leavingVar :: "string option"
  isPhase1 :: bool
  phase :: nat

record SolveResult =
  steps :: "TableauStep list"
  finalValues :: "string \<rightharpoonup> number"
  zValue :: number
  status :: Status
  errorMessage :: "string option"

text \<open>
  What the pivot engine reads and mutates: the store of rows, the matrix (the addresses
  of its rows), the basis and the trace (the array \<open>steps\<close>).
\<close>

record state =
  store :: heap
  matrix :: "addr list"
  basis :: "nat list"
  trace :: "TableauStep list"

abbreviation tol :: number where
  "tol \<equiv> 1 / 1000000000"

abbreviation feasTol :: number where
  "feasTol \<equiv> 1 / 100000"

definition M_VAL :: number where
  "M_VAL = 100000"

definition maxIter :: nat where
  "maxIter = 50"

definition cell :: "state \<Rightarrow> nat \<Rightarrow> nat \<Rightarrow> number" where
  "cell s r c = store s ! (matrix s ! r) ! c"

section \<open>The pivot engine\<close>

text \<open>Step 1 of the loop body: one \<open>TableauRow\<close> per matrix row.\<close>

definition currentTableauRows :: "string list \<Rightarrow> nat \<Rightarrow> nat \<Rightarrow> state \<Rightarrow> TableauRow list" where
  "currentTableauRows hdrs ph colCount s =
     map (\<lambda>r. \<lparr> basicVar = (if r = 0 then (if ph = 1 then ''W'' else ''Z'')
                              else hdrs ! (basis s ! (r - 1))),
                 rowCoefficients = matrix s ! r,
                 rowRhs = cell s r (colCount - 1) \<rparr>)
         [0..<length (matrix s)]"

text \<open>
  Step 2: the scan \<open>for (c = 1; c < colCount - 1; c++)\<close> with the pair
  \<open>(minVal, enteringCol)\<close>; \<open>None\<close> is the source's \<open>-1\<close>.
\<close>

definition enteringStep :: "number list \<Rightarrow> number \<times> nat option \<Rightarrow> nat \<Rightarrow> number \<times> nat option" where
  "enteringStep row0 acc c = (if row0 ! c < fst acc then (row0 ! c, Some c) else acc)"

definition findEntering :: "number list \<Rightarrow> nat \<Rightarrow> nat option" where
  "findEntering row0 colCount = snd (foldl (enteringStep row0) (- tol, None) [1..<colCount - 1])"

text \<open>
  Step 3: the ratio test \<open>for (r = 1; r < rowCount; r++)\<close> with the pair
  \<open>(minRatio, leavingRow)\<close>; \<open>None\<close> is \<open>Infinity\<close>, respectively \<open>-1\<close>.
\<close>

definition ratioStep :: "state \<Rightarrow> nat \<Rightarrow> nat \<Rightarrow> number option \<times> nat option \<Rightarrow> nat \<Rightarrow> number option \<times> nat option" where
  "ratioStep s enteringCol rhsCol acc r =
     (let pivotVal = cell s r enteringCol in
      if pivotVal > tol then
        (let ratio = cell s r rhsCol / pivotVal in
         if (case fst acc of None \<Rightarrow> True | Some minRatio \<Rightarrow> ratio < minRatio)
         then (Some ratio, Some r) else acc)
      else acc)"

definition findLeaving :: "state \<Rightarrow> nat \<Rightarrow> nat \<Rightarrow> nat option" where
  "findLeaving s enteringCol colCount =
     snd (foldl (ratioStep s enteringCol (colCount - 1)) (None, None) [1..<length (matrix s)])"

text \<open>
  Step 4. The two inner loops over \<open>c < colCount\<close> write the row in place, cell by cell;
  each cell \<open>c\<close> depends on the cells \<open>c\<close> only, so a loop is one update of the row
  at its address. Cells from \<open>colCount\<close> on are not touched.
\<close>

definition divRow :: "nat \<Rightarrow> number \<Rightarrow> addr \<Rightarrow> heap \<Rightarrow> heap" where
  "divRow n pivotValue a h = h[a := map (\<lambda>c. h ! a ! c / pivotValue) [0..<n] @ drop n (h ! a)]"

definition subRow :: "nat \<Rightarrow> number \<Rightarrow> addr \<Rightarrow> addr \<Rightarrow> heap \<Rightarrow> heap" where
  "subRow n factor src dst h =
     h[dst := map (\<lambda>c. h ! dst ! c - factor * h ! src ! c) [0..<n] @ drop n (h ! dst)]"

definition eliminateRow :: "addr list \<Rightarrow> nat \<Rightarrow> nat \<Rightarrow> nat \<Rightarrow> heap \<Rightarrow> nat \<Rightarrow> heap" where
  "eliminateRow mat colCount leavingRow enteringCol h r =
     (if r \<noteq> leavingRow then
        (let factor = h ! (mat ! r) ! enteringCol in
         if \<bar>factor\<bar> > tol then subRow colCount factor (mat ! leavingRow) (mat ! r) h else h)
      else h)"

definition pivot :: "nat \<Rightarrow> nat \<Rightarrow> nat \<Rightarrow> state \<Rightarrow> state" where
  "pivot colCount leavingRow enteringCol s =
     (let pivotValue = cell s leavingRow enteringCol;
          h1 = divRow colCount pivotValue (matrix s ! leavingRow) (store s);
          h2 = foldl (eliminateRow (matrix s) colCount leavingRow enteringCol) h1
                 [0..<length (matrix s)]
      in s\<lparr> store := h2, basis := (basis s)[leavingRow - 1 := enteringCol] \<rparr>)"

definition mkStep :: "string list \<Rightarrow> nat \<Rightarrow> nat \<Rightarrow> state \<Rightarrow> Description \<Rightarrow> TableauStep" where
  "mkStep hdrs ph colCount s d =
     \<lparr> stepIndex = length (trace s) + 1,
       description = d,
       tableau = currentTableauRows hdrs ph colCount s,
       headers = hdrs,
       basicVars = map (\<lambda>i. hdrs ! i) (basis s),
       pivotRow = None, pivotCol = None, enteringVar = None, leavingVar = None,
       isPhase1 = (ph = 1),
       phase = ph \<rparr>"

definition push :: "TableauStep \<Rightarrow> state \<Rightarrow> state" where
  "push st s = s\<lparr> trace := trace s @ [st] \<rparr>"

datatype flow = Return Status state | Next state

text \<open>One pass through the body of \<open>while (iter < maxIter)\<close>.\<close>

definition iteration :: "string list \<Rightarrow> nat \<Rightarrow> nat \<Rightarrow> nat \<Rightarrow> state \<Rightarrow> flow" where
  "iteration hdrs ph colCount iter s =
     (case findEntering (store s ! (matrix s ! 0)) colCount of
        None \<Rightarrow> Return OPTIMAL (push (mkStep hdrs ph colCount s (OptimalFound ph)) s)
      | Some enteringCol \<Rightarrow>
          (case findLeaving s enteringCol colCount of
             None \<Rightarrow>
               Return UNBOUNDED
                 (push (mkStep hdrs ph colCount s (UnboundedDetected (hdrs ! enteringCol))) s)
           | Some leavingRow \<Rightarrow>
               (let enteringVarName = hdrs ! enteringCol;
                    leavingVarName = hdrs ! (basis s ! (leavingRow - 1));
                    st = (mkStep hdrs ph colCount s
                            (Iteration (iter + 1) enteringVarName leavingVarName
                               leavingRow enteringCol))
                         \<lparr> pivotRow := Some leavingRow, pivotCol := Some enteringCol,
                           enteringVar := Some enteringVarName,
                           leavingVar := Some leavingVarName \<rparr>
                in Next (pivot colCount leavingRow enteringCol (push st s)))))"

function loop :: "string list \<Rightarrow> nat \<Rightarrow> nat \<Rightarrow> nat \<Rightarrow> state \<Rightarrow> Status \<times> state" where
  "loop hdrs ph colCount iter s =
     (if iter < maxIter then
        (case iteration hdrs ph colCount iter s of
           Return r s' \<Rightarrow> (r, s')
         | Next s' \<Rightarrow> loop hdrs ph colCount (iter + 1) s')
      else (UNBOUNDED, s))"
  by pat_completeness auto
termination
  by (relation "measure (\<lambda>(hdrs, ph, colCount, iter, s). maxIter - iter)") auto

text \<open>
  \<open>runSimplexIterations(matrix, headers, basis, steps, phase)\<close>. The source reads
  \<open>matrix[0].length\<close> first; its only caller passes a matrix of at least one row.
\<close>

definition runSimplexIterations :: "string list \<Rightarrow> nat \<Rightarrow> state \<Rightarrow> Status \<times> state" where
  "runSimplexIterations hdrs ph s = loop hdrs ph (length (store s ! (matrix s ! 0))) 0 s"

section \<open>Normalization\<close>

text \<open>Decimal rendering of an index, as a template literal does it.\<close>

fun natToString :: "nat \<Rightarrow> string" where
  "natToString n =
     (if n < 10 then [''0123456789'' ! n]
      else natToString (n div 10) @ [''0123456789'' ! (n mod 10)])"

definition startsWith :: "string \<Rightarrow> string \<Rightarrow> bool" where
  "startsWith p h = (take (length p) h = p)"

definition decisionHeaders :: "nat \<Rightarrow> string list" where
  "decisionHeaders numDecisionVars = map (\<lambda>i. ''x'' @ natToString i) [1..<numDecisionVars + 1]"

definition slackVars :: "Constraint list \<Rightarrow> string list" where
  "slackVars cs =
     concat (map (\<lambda>(i, c). if relation c = LE then [''s'' @ natToString (i + 1)] else [])
               (enumerate 0 cs))"

definition surplusVars :: "Constraint list \<Rightarrow> string list" where
  "surplusVars cs =
     concat (map (\<lambda>(i, c). if relation c = GE then [''e'' @ natToString (i + 1)] else [])
               (enumerate 0 cs))"

definition artificialVars :: "Constraint list \<Rightarrow> string list" where
  "artificialVars cs =
     concat (map (\<lambda>(i, c). if relation c = GE \<or> relation c = EQ
                             then [''a'' @ natToString (i + 1)] else [])
               (enumerate 0 cs))"

definition buildHeaders :: "nat \<Rightarrow> Constraint list \<Rightarrow> string list" where
  "buildHeaders numDecisionVars cs =
     [''Z''] @ decisionHeaders numDecisionVars @ slackVars cs @ surplusVars cs
       @ artificialVars cs @ [''LD'']"

text \<open>
  The assignment \<open>row[i] = v\<close>. JavaScript extends the array when \<open>i\<close> is not an index
  of it; the solver only ever does so with \<open>i\<close> equal to the length (a constraint with
  more coefficients than decision variables, written in increasing order), where no
  hole arises. The padding of the last case is never produced.
\<close>

definition setAt :: "number list \<Rightarrow> nat \<Rightarrow> number \<Rightarrow> number list" where
  "setAt row i v =
     (if i < length row then row[i := v] else row @ replicate (i - length row) 0 @ [v])"

record builder =
  rows :: "number list list"
  initialBasis :: "nat list"
  currentSlackIdx :: nat
  currentSurplusIdx :: nat
  currentArtificialIdx :: nat

text \<open>
  The body of the second \<open>constraints.forEach((c, rowIdx) => ...)\<close>. Every relation is
  one of the three, so \<open>initialBasis[rowIdx] = ...\<close> appends.
\<close>

definition fillConstraint :: "nat \<Rightarrow> builder \<Rightarrow> nat \<times> Constraint \<Rightarrow> builder" where
  "fillConstraint RHS_COL b ic =
     (let rowIdx = fst ic; c = snd ic; matrixRow = rowIdx + 1;
          row1 = foldl (\<lambda>row (colIdx, coef). setAt row (colIdx + 1) coef)
                   (rows b ! matrixRow) (enumerate 0 (coefficients c));
          row2 = setAt row1 RHS_COL (rhs c)
      in case relation c of
           LE \<Rightarrow> b\<lparr> rows := (rows b)[matrixRow := setAt row2 (currentSlackIdx b) 1],
                     initialBasis := initialBasis b @ [currentSlackIdx b],
                     currentSlackIdx := currentSlackIdx b + 1 \<rparr>
         | GE \<Rightarrow> b\<lparr> rows := (rows b)[matrixRow :=
                                setAt (setAt row2 (currentSurplusIdx b) (- 1))
                                  (currentArtificialIdx b) 1],
                     initialBasis := initialBasis b @ [currentArtificialIdx b],
                     currentSurplusIdx := currentSurplusIdx b + 1,
                     currentArtificialIdx := currentArtificialIdx b + 1 \<rparr>
         | EQ \<Rightarrow> b\<lparr> rows := (rows b)[matrixRow := setAt row2 (currentArtificialIdx b) 1],
                     initialBasis := initialBasis b @ [currentArtificialIdx b],
                     currentArtificialIdx := currentArtificialIdx b + 1 \<rparr>)"

text \<open>Row 0: \<open>matrix[0][Z_COL] = 1\<close>, then \<open>matrix[0][idx + 1] = isMin ? coef : -coef\<close>.\<close>

definition objectiveRow :: "bool \<Rightarrow> number list \<Rightarrow> number list \<Rightarrow> number list" where
  "objectiveRow isMin objCoeffs row =
     foldl (\<lambda>row (idx, coef). setAt row (idx + 1) (if isMin then coef else - coef))
       (setAt row 0 1) (enumerate 0 objCoeffs)"

definition initialBuilder :: "nat \<Rightarrow> Constraint list \<Rightarrow> nat \<Rightarrow> builder" where
  "initialBuilder numDecisionVars cs colCount =
     \<lparr> rows = replicate (length cs + 1) (replicate colCount 0),
       initialBasis = [],
       currentSlackIdx = 1 + numDecisionVars,
       currentSurplusIdx = 1 + numDecisionVars + length (slackVars cs),
       currentArtificialIdx =
         1 + numDecisionVars + length (slackVars cs) + length (surplusVars cs) \<rparr>"

text \<open>
  The tableau before the method-specific adjustments. The rows are allocated at the
  addresses \<open>0..m\<close>; no step exists yet. In \<open>twoPhase\<close> below, \<open>length (store s0)\<close> is
  the address that \<open>preparePhase1\<close> gives to \<open>originalObjRow\<close>.
\<close>

definition initialState :: "bool \<Rightarrow> number list \<Rightarrow> Constraint list \<Rightarrow> nat \<Rightarrow> state" where
  "initialState isMin objCoeffs cs colCount =
     (let b = foldl (fillConstraint (colCount - 1))
                (initialBuilder (length objCoeffs) cs colCount) (enumerate 0 cs);
          m = (rows b)[0 := objectiveRow isMin objCoeffs (rows b ! 0)]
      in \<lparr> store = m,
           matrix = [0..<length m],
           basis = initialBasis b,
           trace = [] \<rparr>)"

section \<open>Orchestration\<close>

definition artIndices :: "string list \<Rightarrow> nat list" where
  "artIndices hdrs = filter (\<lambda>i. startsWith ''a'' (hdrs ! i)) [0..<length hdrs]"

text \<open>\<open>headers.forEach((h, i) => { if (h.startsWith('a')) matrix[0][i] = v })\<close>\<close>

definition markArtificials :: "number \<Rightarrow> string list \<Rightarrow> addr \<Rightarrow> heap \<Rightarrow> heap" where
  "markArtificials v hdrs a h = foldl (\<lambda>h i. h[a := setAt (h ! a) i v]) h (artIndices hdrs)"

text \<open>
  \<open>artIndices.forEach(artCol => for r in 1..numRows-1: if (matrix[r][artCol] === 1)
  row0 -= factor * row r)\<close>; the factor is 1 in phase 1 and \<open>M_VAL\<close> for Big-M.
\<close>

definition eliminateArtificial :: "number \<Rightarrow> addr list \<Rightarrow> nat \<Rightarrow> heap \<Rightarrow> nat \<Rightarrow> heap" where
  "eliminateArtificial factor mat colCount h artCol =
     foldl (\<lambda>h r. if h ! (mat ! r) ! artCol = 1
                   then subRow colCount factor (mat ! r) (mat ! 0) h else h)
       h [1..<length mat]"

definition eliminateArtificials :: "number \<Rightarrow> string list \<Rightarrow> addr list \<Rightarrow> nat \<Rightarrow> heap \<Rightarrow> heap" where
  "eliminateArtificials factor hdrs mat colCount h =
     foldl (eliminateArtificial factor mat colCount) h (artIndices hdrs)"

text \<open>
  Phase 1 of the two-phase method. \<open>originalObjRow = [...matrix[0]]\<close> is a new array,
  and \<open>matrix[0] = Array(colCount).fill(0)\<close> is another: both are appended to the store.
\<close>

definition preparePhase1 :: "string list \<Rightarrow> nat \<Rightarrow> state \<Rightarrow> state" where
  "preparePhase1 hdrs colCount s =
     (let h1 = store s @ [store s ! (matrix s ! 0)];
          aux = length h1;
          h2 = h1 @ [setAt (replicate colCount 0) 0 1];
          mat = (matrix s)[0 := aux];
          h3 = markArtificials 1 hdrs aux h2;
          h4 = eliminateArtificials 1 hdrs mat colCount h3
      in s\<lparr> store := h4, matrix := mat \<rparr>)"

text \<open>
  \<open>matrix[0] = originalObjRow\<close>, then \<open>initialBasis.forEach((basisCol, rowMinus1) => ...)\<close>:
  the objective row is re-zeroed against the basis.
\<close>

definition rezeroStep :: "addr list \<Rightarrow> nat \<Rightarrow> heap \<Rightarrow> nat \<times> nat \<Rightarrow> heap" where
  "rezeroStep mat colCount h rb =
     (let row = fst rb + 1; basisCoeffInObj = h ! (mat ! 0) ! snd rb in
      if \<bar>basisCoeffInObj\<bar> > tol
      then subRow colCount basisCoeffInObj (mat ! row) (mat ! 0) h else h)"

definition preparePhase2 :: "nat \<Rightarrow> addr \<Rightarrow> state \<Rightarrow> state" where
  "preparePhase2 colCount originalObjRow s =
     (let mat = (matrix s)[0 := originalObjRow]
      in s\<lparr> store := foldl (rezeroStep mat colCount) (store s) (enumerate 0 (basis s)),
            matrix := mat \<rparr>)"

text \<open>\<open>return { status, steps, finalValues: {}, zValue: 0 }\<close>, with the store at that moment.\<close>

definition failed :: "Status \<Rightarrow> state \<Rightarrow> SolveResult \<times> heap" where
  "failed st s =
     (\<lparr> steps = trace s, finalValues = Map.empty, zValue = 0, status = st,
        errorMessage = None \<rparr>, store s)"

text \<open>The part EXTRACT RESULTS; \<open>headers.slice(1, -1)\<close> is \<open>butlast (tl hdrs)\<close>.\<close>

definition extractResults :: "bool \<Rightarrow> string list \<Rightarrow> nat \<Rightarrow> state \<Rightarrow> SolveResult \<times> heap" where
  "extractResults isMin hdrs colCount s =
     (let zeroed = foldl (\<lambda>m h. m(h \<mapsto> 0)) Map.empty (butlast (tl hdrs));
          fv = foldl (\<lambda>m (rowIdx, colIdx). m(hdrs ! colIdx \<mapsto> cell s (rowIdx + 1) (colCount - 1)))
                 zeroed (enumerate 0 (basis s));
          z = cell s 0 (colCount - 1)
      in (\<lparr> steps = trace s, finalValues = fv, zValue = (if isMin then - z else z),
            status = OPTIMAL, errorMessage = None \<rparr>, store s))"

definition twoPhase :: "bool \<Rightarrow> string list \<Rightarrow> nat \<Rightarrow> state \<Rightarrow> SolveResult \<times> heap" where
  "twoPhase isMin hdrs colCount s0 =
     (case runSimplexIterations hdrs 1 (preparePhase1 hdrs colCount s0) of
        (phase1Result, s1) \<Rightarrow>
          if phase1Result = UNBOUNDED then failed UNBOUNDED s1
          else if \<bar>cell s1 0 (colCount - 1)\<bar> > feasTol then failed INFEASIBLE s1
          else
            (case runSimplexIterations hdrs 2 (preparePhase2 colCount (length (store s0)) s1) of
               (phase2Result, s2) \<Rightarrow>
                 if phase2Result \<noteq> OPTIMAL then failed phase2Result s2
                 else extractResults isMin hdrs colCount s2))"

text \<open>
  The check after the Big-M run: \<open>initialBasis.some((colIdx, i) => headers[colIdx]
  .startsWith('a') && matrix[i+1][RHS_COL] > 1e-5)\<close>.
\<close>

definition artInBasis :: "string list \<Rightarrow> nat \<Rightarrow> state \<Rightarrow> bool" where
  "artInBasis hdrs colCount s =
     list_ex (\<lambda>(i, colIdx). startsWith ''a'' (hdrs ! colIdx) \<and> cell s (i + 1) (colCount - 1) > feasTol)
       (enumerate 0 (basis s))"

text \<open>
  The Big-M objective row: \<open>M_VAL\<close> in every artificial column of row 0, then
  \<open>M_VAL\<close> times the row of each artificial variable subtracted from row 0, in place.
\<close>

definition prepareBigM :: "string list \<Rightarrow> nat \<Rightarrow> state \<Rightarrow> state" where
  "prepareBigM hdrs colCount s =
     (let h1 = markArtificials M_VAL hdrs (matrix s ! 0) (store s);
          h2 = eliminateArtificials M_VAL hdrs (matrix s) colCount h1
      in s\<lparr> store := h2 \<rparr>)"

definition bigM :: "bool \<Rightarrow> string list \<Rightarrow> nat \<Rightarrow> state \<Rightarrow> SolveResult \<times> heap" where
  "bigM isMin hdrs colCount s0 =
     (case runSimplexIterations hdrs 0 (prepareBigM hdrs colCount s0) of
        (res, s1) \<Rightarrow>
          if res \<noteq> OPTIMAL then failed res s1
          else if artInBasis hdrs colCount s1 then failed INFEASIBLE s1
          else extractResults isMin hdrs colCount s1)"

definition standard :: "bool \<Rightarrow> string list \<Rightarrow> nat \<Rightarrow> state \<Rightarrow> SolveResult \<times> heap" where
  "standard isMin hdrs colCount s0 =
     (case runSimplexIterations hdrs 0 s0 of
        (res, s1) \<Rightarrow> if res \<noteq> OPTIMAL then failed res s1 else extractResults isMin hdrs colCount s1)"

text \<open>The body of the \<open>try\<close> block on constraints that are objects.\<close>

definition solveCore ::
  "SolverMethod \<Rightarrow> OptimizationType \<Rightarrow> number list \<Rightarrow> Constraint list \<Rightarrow> SolveResult \<times> heap" where
  "solveCore method ty objCoeffs cs =
     (let isMin = (ty = OptMIN);
          hdrs = buildHeaders (length objCoeffs) cs;
          colCount = length hdrs;
          s0 = initialState isMin objCoeffs cs colCount
      in if method = TWO_PHASE \<and> length (artificialVars cs) > 0
         then twoPhase isMin hdrs colCount s0
         else if method = BIG_M \<and> length (artificialVars cs) > 0
         then bigM isMin hdrs colCount s0
         else standard isMin hdrs colCount s0)"

text \<open>
  TypeScript's types are erased at run time. An entry of \<open>constraints\<close> that is \<open>null\<close>
  or \<open>undefined\<close> at run time (a malformed input shape) is \<open>None\<close>: the first
  \<open>constraints.forEach\<close> reads its \<open>relation\<close> and raises a TypeError. Nothing else in
  the \<open>try\<close> block raises.
\<close>

datatype exn = TypeError

definition solveBody ::
  "SolverMethod \<Rightarrow> OptimizationType \<Rightarrow> number list \<Rightarrow> Constraint option list
     \<Rightarrow> exn + SolveResult \<times> heap" where
  "solveBody method ty objCoeffs constraints =
     (case those constraints of
        None \<Rightarrow> Inl TypeError
      | Some cs \<Rightarrow> Inr (solveCore method ty objCoeffs cs))"

text \<open>
  \<open>solveLinearProgram\<close>: the \<open>try\<close> block and its \<open>catch\<close>. The result comes with the store
  of rows at the moment of the return, which the rows of its steps refer to. The error
  message is "Error interno de calculo".
\<close>

definition solveLinearProgram ::
  "SolverMethod \<Rightarrow> OptimizationType \<Rightarrow> number list \<Rightarrow> Constraint option list
     \<Rightarrow> SolveResult \<times> heap" where
  "solveLinearProgram method ty objCoeffs constraints =
     (case solveBody method ty objCoeffs constraints of
        Inr r \<Rightarrow> r
      | Inl e \<Rightarrow>
          (\<lparr> steps = [], finalValues = Map.empty, zValue = 0, status = ERROR,
             errorMessage = Some ''Error interno de calculo'' \<rparr>, []))"

section \<open>Predicates of the statements\<close>

definition isIterationStep :: "TableauStep \<Rightarrow> bool" where
  "isIterationStep st = (case description st of Iteration k e l r c \<Rightarrow> True | _ \<Rightarrow> False)"

definition isTerminalStep :: "TableauStep \<Rightarrow> bool" where
  "isTerminalStep st =
     (case description st of OptimalFound p \<Rightarrow> True | UnboundedDetected v \<Rightarrow> True
      | Iteration k e l r c \<Rightarrow> False)"


definition cappedStep :: "TableauStep \<Rightarrow> bool" where
  "cappedStep st = (case description st of Iteration k e l r c \<Rightarrow> k = maxIter | _ \<Rightarrow> False)"

definition lastStepOk :: "Status \<Rightarrow> TableauStep list \<Rightarrow> bool" where
  "lastStepOk st tr =
     (tr \<noteq> [] \<and> (isTerminalStep (last tr) \<or> (st = UNBOUNDED \<and> cappedStep (last tr))))"


text \<open>
  What every return of the \<open>try\<close> block satisfies: the status is not ERROR, and a status
  other than OPTIMAL comes with no variable values and the objective value 0.
\<close>

definition properResult :: "SolveResult \<times> heap \<Rightarrow> bool" where
  "properResult r =
     (status (fst r) \<noteq> ERROR \<and>
      (status (fst r) \<noteq> OPTIMAL \<longrightarrow> finalValues (fst r) = Map.empty \<and> zValue (fst r) = 0))"

text \<open>
  The stages of the two-phase method on a problem, as \<open>solveCore\<close> computes them: the
  initial tableau, the run of phase 1 on the auxiliary objective, the tableau with the
  true objective row restored and re-zeroed, and the run of phase 2.
\<close>

definition tableauOf :: "OptimizationType \<Rightarrow> number list \<Rightarrow> Constraint list \<Rightarrow> state" where
  "tableauOf ty objCoeffs cs =
     initialState (ty = OptMIN) objCoeffs cs (length (buildHeaders (length objCoeffs) cs))"





text \<open>
  A tableau as \<open>solveLinearProgram\<close> builds it: the rows of the matrix are distinct arrays
  of the store, each of at least \<open>colCount\<close> cells, and the basis has one entry per
  constraint row.
\<close>

definition wfTableau :: "nat \<Rightarrow> state \<Rightarrow> bool" where
  "wfTableau colCount s =
     (distinct (matrix s) \<and>
      list_all (\<lambda>a. a < length (store s) \<and> colCount \<le> length (store s ! a)) (matrix s) \<and>
      length (basis s) + 1 = length (matrix s))"

section \<open>Example problems\<close>

text \<open>
  A degenerate problem on which the pivot rules of the engine cycle with period six
  (maximize 10 x1 - 57 x2 - 9 x3 - 24 x4 under three constraints). All entries of its
  tableaux are dyadic, so floating-point arithmetic computes them exactly.
\<close>

definition cycHeaders :: "string list" where
  "cycHeaders = [''Z'', ''x1'', ''x2'', ''x3'', ''x4'', ''s1'', ''s2'', ''s3'', ''LD'']"

definition cycObj :: "number list" where "cycObj = [10, - 57, - 9, - 24]"

definition cycConstraints :: "Constraint list" where
  "cycConstraints =
     [\<lparr> cid = ''c-0'', coefficients = [1/2, - 11/2, - 5/2, 9], relation = LE, rhs = 0 \<rparr>,
      \<lparr> cid = ''c-1'', coefficients = [1/2, - 3/2, - 1/2, 1], relation = LE, rhs = 0 \<rparr>,
      \<lparr> cid = ''c-2'', coefficients = [1, 0, 0, 0], relation = LE, rhs = 1 \<rparr>]"

definition cycleTableaux :: "(number list list \<times> nat list) list" where
  "cycleTableaux =
    [([[1, - 10, 57, 9, 24, 0, 0, 0, 0],
       [0, 1/2, - 11/2, - 5/2, 9, 1, 0, 0, 0],
       [0, 1/2, - 3/2, - 1/2, 1, 0, 1, 0, 0],
       [0, 1, 0, 0, 0, 0, 0, 1, 1]], [5, 6, 7]),
     ([[1, 0, - 53, - 41, 204, 20, 0, 0, 0],
       [0, 1, - 11, - 5, 18, 2, 0, 0, 0],
       [0, 0, 4, 2, - 8, - 1, 1, 0, 0],
       [0, 0, 11, 5, - 18, - 2, 0, 1, 1]], [1, 6, 7]),
     ([[1, 0, 0, - 29/2, 98, 27/4, 53/4, 0, 0],
       [0, 1, 0, 1/2, - 4, - 3/4, 11/4, 0, 0],
       [0, 0, 1, 1/2, - 2, - 1/4, 1/4, 0, 0],
       [0, 0, 0, - 1/2, 4, 3/4, - 11/4, 1, 1]], [1, 2, 7]),
     ([[1, 29, 0, 0, - 18, - 15, 93, 0, 0],
       [0, 2, 0, 1, - 8, - 3/2, 11/2, 0, 0],
       [0, - 1, 1, 0, 2, 1/2, - 5/2, 0, 0],
       [0, 1, 0, 0, 0, 0, 0, 1, 1]], [3, 2, 7]),
     ([[1, 20, 9, 0, 0, - 21/2, 141/2, 0, 0],
       [0, - 2, 4, 1, 0, 1/2, - 9/2, 0, 0],
       [0, - 1/2, 1/2, 0, 1, 1/4, - 5/4, 0, 0],
       [0, 1, 0, 0, 0, 0, 0, 1, 1]], [3, 4, 7]),
     ([[1, - 22, 93, 21, 0, 0, - 24, 0, 0],
       [0, - 4, 8, 2, 0, 1, - 9, 0, 0],
       [0, 1/2, - 3/2, - 1/2, 1, 0, 1, 0, 0],
       [0, 1, 0, 0, 0, 0, 0, 1, 1]], [5, 4, 7])]"

definition inCycle :: "state \<Rightarrow> bool" where
  "inCycle s = (matrix s = [0, 1, 2, 3] \<and> (store s, basis s) \<in> set cycleTableaux)"


definition cycStart :: state where
  "cycStart = initialState False cycObj cycConstraints 9"

definition cycResult :: SolveResult where
  "cycResult = fst (solveLinearProgram SIMPLEX OptMAX cycObj (map Some cycConstraints))"





text \<open>The infeasible system \<open>x1 \<ge> 5\<close>, \<open>x1 \<le> 2\<close>, with objective maximize \<open>x1\<close>.\<close>

definition infeasibleConstraints :: "Constraint list" where
  "infeasibleConstraints =
     [\<lparr> cid = ''c-0'', coefficients = [1], relation = GE, rhs = 5 \<rparr>,
      \<lparr> cid = ''c-1'', coefficients = [1], relation = LE, rhs = 2 \<rparr>]"






text \<open>Maximize \<open>x1\<close> under \<open>2 x1 \<le> 4\<close>, solved by the standard method in one pivot.\<close>

definition aliasConstraints :: "Constraint list" where
  "aliasConstraints = [\<lparr> cid = ''c-0'', coefficients = [2], relation = LE, rhs = 4 \<rparr>]"

definition aliasResult :: "SolveResult \<times> heap" where
  "aliasResult = solveLinearProgram SIMPLEX OptMAX [1] (map Some aliasConstraints)"

section \<open>The loop of the pivot engine\<close>

lemma iteration_Return:
  assumes "iteration hdrs ph colCount iter s = Return r s'"
  shows "\<exists>st. s' = s\<lparr> trace := trace s @ [st] \<rparr> \<and>
           tableau st = currentTableauRows hdrs ph colCount s \<and>
           ((r = OPTIMAL \<and> description st = OptimalFound ph) \<or>
            (r = UNBOUNDED \<and> (\<exists>v. description st = UnboundedDetected v)))"
  using assms
  by (auto simp: iteration_def push_def mkStep_def Let_def split: option.splits)

lemma trace_pivot: "trace (pivot colCount l e s) = trace s"
  by (simp add: pivot_def Let_def)

lemma matrix_pivot: "matrix (pivot colCount l e s) = matrix s"
  by (simp add: pivot_def Let_def)

lemma iteration_Next:
  assumes "iteration hdrs ph colCount iter s = Next s'"
  shows "matrix s' = matrix s \<and>
         (\<exists>st e l r c. trace s' = trace s @ [st] \<and> description st = Iteration (iter + 1) e l r c)"
  using assms
  by (auto simp: iteration_def push_def mkStep_def Let_def trace_pivot matrix_pivot
           split: option.splits)

lemma loop_shape:
  "iter \<le> maxIter \<Longrightarrow> loop hdrs ph colCount iter s = (r, s') \<Longrightarrow>
   \<exists>its fin. trace s' = trace s @ its @ fin \<and> matrix s' = matrix s \<and>
     length its \<le> maxIter - iter \<and>
     (\<forall>k < length its. \<exists>e l row c. description (its ! k) = Iteration (iter + k + 1) e l row c) \<and>
     ((fin = [] \<and> r = UNBOUNDED \<and> length its = maxIter - iter) \<or>
      (\<exists>st. fin = [st] \<and> length its < maxIter - iter \<and>
         ((r = OPTIMAL \<and> description st = OptimalFound ph) \<or>
          (r = UNBOUNDED \<and> (\<exists>v. description st = UnboundedDetected v)))))"
proof (induction hdrs ph colCount iter s arbitrary: r s' rule: loop.induct)
  case (1 hdrs ph colCount iter s)
  show ?case
  proof (cases "iter < maxIter")
    case False
    with "1.prems" have "r = UNBOUNDED" "s' = s" "iter = maxIter" by auto
    then show ?thesis by (intro exI[of _ "[]"]) simp
  next
    case True
    show ?thesis
    proof (cases "iteration hdrs ph colCount iter s")
      case (Return r0 s0)
      with True "1.prems" have eq: "r0 = r" "s0 = s'" by auto
      from iteration_Return[OF Return] obtain st where
        st: "s0 = s\<lparr> trace := trace s @ [st] \<rparr>"
          "(r0 = OPTIMAL \<and> description st = OptimalFound ph) \<or>
           (r0 = UNBOUNDED \<and> (\<exists>v. description st = UnboundedDetected v))" by blast
      show ?thesis
        apply (rule exI[of _ "[]"], rule exI[of _ "[st]"])
        using st eq True by auto
    next
      case (Next s1)
      with True "1.prems" have run: "loop hdrs ph colCount (iter + 1) s1 = (r, s')" by auto
      from True have le: "iter + 1 \<le> maxIter" by simp
      from "1.IH"[OF True Next le run] obtain its fin where
        IH: "trace s' = trace s1 @ its @ fin" "matrix s' = matrix s1"
          "length its \<le> maxIter - (iter + 1)"
          "\<forall>k < length its. \<exists>e l row c.
              description (its ! k) = Iteration (iter + 1 + k + 1) e l row c"
          "(fin = [] \<and> r = UNBOUNDED \<and> length its = maxIter - (iter + 1)) \<or>
           (\<exists>st. fin = [st] \<and> length its < maxIter - (iter + 1) \<and>
             ((r = OPTIMAL \<and> description st = OptimalFound ph) \<or>
              (r = UNBOUNDED \<and> (\<exists>v. description st = UnboundedDetected v))))" by blast
      from iteration_Next[OF Next] obtain st e l rr c where
        st: "matrix s1 = matrix s" "trace s1 = trace s @ [st]"
          "description st = Iteration (iter + 1) e l rr c" by blast
      have descr: "\<forall>k < length (st # its). \<exists>e l row c.
              description ((st # its) ! k) = Iteration (iter + k + 1) e l row c"
      proof (intro allI impI)
        fix k assume k: "k < length (st # its)"
        show "\<exists>e l row c. description ((st # its) ! k) = Iteration (iter + k + 1) e l row c"
        proof (cases k)
          case 0
          then show ?thesis using st(3) by simp
        next
          case (Suc j)
          with k IH(4) show ?thesis by simp
        qed
      qed
      show ?thesis
        apply (rule exI[of _ "st # its"], rule exI[of _ fin])
        using IH(1,2,3,5) st(1,2) descr True by auto
    qed
  qed
qed

lemma loop_never_returns:
  "(\<forall>s iter. I s \<longrightarrow> (\<exists>s'. iteration hdrs ph colCount iter s = Next s' \<and> I s')) \<Longrightarrow>
   I s \<Longrightarrow> iter \<le> maxIter \<Longrightarrow>
   \<exists>s' its. loop hdrs ph colCount iter s = (UNBOUNDED, s') \<and> trace s' = trace s @ its \<and>
     length its = maxIter - iter \<and> (\<forall>st \<in> set its. isIterationStep st)"
proof (induction hdrs ph colCount iter s rule: loop.induct)
  case (1 hdrs ph colCount iter s)
  show ?case
  proof (cases "iter < maxIter")
    case False
    with "1.prems" show ?thesis by simp
  next
    case True
    from "1.prems"(1,2) obtain s1 where
      s1: "iteration hdrs ph colCount iter s = Next s1" "I s1" by blast
    from True have le: "iter + 1 \<le> maxIter" by simp
    from "1.IH"[OF True s1(1) "1.prems"(1) s1(2) le] obtain s' its where
      IH: "loop hdrs ph colCount (iter + 1) s1 = (UNBOUNDED, s')" "trace s' = trace s1 @ its"
        "length its = maxIter - (iter + 1)" "\<forall>st \<in> set its. isIterationStep st" by blast
    from iteration_Next[OF s1(1)] obtain st e l rr c where
      st: "trace s1 = trace s @ [st]" "description st = Iteration (iter + 1) e l rr c" by blast
    have it: "isIterationStep st" using st(2) by (simp add: isIterationStep_def)
    have "loop hdrs ph colCount iter s = (UNBOUNDED, s')"
      using True s1(1) IH(1) by simp
    moreover have "trace s' = trace s @ (st # its)" using IH(2) st(1) by simp
    moreover have "length (st # its) = maxIter - iter" using IH(3) True by simp
    moreover have "\<forall>x \<in> set (st # its). isIterationStep x" using IH(4) it by simp
    ultimately show ?thesis by blast
  qed
qed

lemma cyc_headers: "buildHeaders (length cycObj) cycConstraints = cycHeaders"
  by code_simp

lemma cyc_start:
  "cycStart = \<lparr> store = fst (cycleTableaux ! 0), matrix = [0, 1, 2, 3],
                basis = snd (cycleTableaux ! 0), trace = [] \<rparr>"
  unfolding cycStart_def by code_simp

lemma cycle_step:
  assumes "inCycle s"
  shows "\<exists>s'. iteration cycHeaders 0 9 iter s = Next s' \<and> inCycle s'"
proof (cases s)
  case (fields h m b t)
  from assms fields have m: "m = [0, 1, 2, 3]" and hb: "(h, b) \<in> set cycleTableaux"
    by (simp_all add: inCycle_def)
  from hb show ?thesis
    unfolding fields m cycleTableaux_def
    apply simp
    apply (elim disjE conjE)
    apply (simp_all add: inCycle_def cycleTableaux_def iteration_def findEntering_def
        enteringStep_def findLeaving_def ratioStep_def cell_def Let_def pivot_def divRow_def
        subRow_def eliminateRow_def push_def mkStep_def currentTableauRows_def upt_conv_Cons)
    done
qed

lemma cyc_run:
  "\<exists>s' its. runSimplexIterations cycHeaders 0 cycStart = (UNBOUNDED, s') \<and> trace s' = its \<and>
      length its = maxIter \<and> (\<forall>st \<in> set its. isIterationStep st)"
proof -
  have I: "inCycle cycStart"
    by (simp add: cyc_start inCycle_def cycleTableaux_def)
  have cc: "length (store cycStart ! (matrix cycStart ! 0)) = 9"
    by (simp add: cyc_start cycleTableaux_def)
  have tr: "trace cycStart = []" by (simp add: cyc_start)
  have "\<forall>s iter. inCycle s \<longrightarrow> (\<exists>s'. iteration cycHeaders 0 9 iter s = Next s' \<and> inCycle s')"
    using cycle_step by blast
  from loop_never_returns[where I = inCycle and s = cycStart and iter = 0, OF this I]
  show ?thesis
    by (simp add: runSimplexIterations_def cc tr)
qed

lemma descr_isIterationStep:
  assumes "\<forall>k < length its. \<exists>e l row c. description (its ! k) = Iteration (f k) e l row c"
  shows "\<forall>st \<in> set its. isIterationStep st"
proof
  fix st assume "st \<in> set its"
  then obtain k where k: "k < length its" "its ! k = st" by (auto simp: in_set_conv_nth)
  with assms obtain e l row c where "description st = Iteration (f k) e l row c" by auto
  then show "isIterationStep st" by (simp add: isIterationStep_def)
qed

text \<open>
  C7. Every call of \<open>runSimplexIterations\<close> returns, with OPTIMAL or UNBOUNDED. A pass
  through the loop body that pivots appends exactly one iteration step, so the iteration
  steps among the appended steps count the pivots: there are at most 50 of them, and
  when there are 50 the result is UNBOUNDED and no terminal step was appended.
\<close>

theorem iteration_cap:
  "\<exists>r s' new. runSimplexIterations hdrs ph s = (r, s') \<and> trace s' = trace s @ new \<and>
     (r = OPTIMAL \<or> r = UNBOUNDED) \<and> maxIter = 50 \<and>
     length new \<le> maxIter \<and> length (filter isIterationStep new) \<le> maxIter \<and>
     (length (filter isIterationStep new) = maxIter \<longrightarrow>
        r = UNBOUNDED \<and> (\<forall>st \<in> set new. isIterationStep st))"
proof -
  obtain r s' where run: "loop hdrs ph (length (store s ! (matrix s ! 0))) 0 s = (r, s')"
    by (cases "loop hdrs ph (length (store s ! (matrix s ! 0))) 0 s") auto
  from loop_shape[OF _ run] obtain its fin where
    sh: "trace s' = trace s @ its @ fin" "length its \<le> maxIter"
      "\<forall>k < length its. \<exists>e l row c. description (its ! k) = Iteration (0 + k + 1) e l row c"
      "(fin = [] \<and> r = UNBOUNDED \<and> length its = maxIter) \<or>
       (\<exists>st. fin = [st] \<and> length its < maxIter \<and>
          ((r = OPTIMAL \<and> description st = OptimalFound ph) \<or>
           (r = UNBOUNDED \<and> (\<exists>v. description st = UnboundedDetected v))))"
    by auto
  have all: "\<forall>st \<in> set its. isIterationStep st"
    using sh(3) by (rule descr_isIterationStep)
  then have f1: "filter isIterationStep its = its" by simp
  from sh(4) have f2: "(fin = [] \<and> r = UNBOUNDED \<and> length its = maxIter) \<or>
      (filter isIterationStep fin = [] \<and> length fin = 1 \<and> length its < maxIter \<and>
         (r = OPTIMAL \<or> r = UNBOUNDED))"
    by (auto simp: isIterationStep_def)
  show ?thesis
    apply (rule exI[of _ r], rule exI[of _ s'], rule exI[of _ "its @ fin"])
    using run sh(1,2) f1 f2 all
    by (auto simp: runSimplexIterations_def maxIter_def)
qed


text \<open>The cycling problem performs all 50 pivots.\<close>

theorem iteration_cap_witness:
  "length (filter isIterationStep (trace (snd (runSimplexIterations cycHeaders 0 cycStart)))) = maxIter
   \<and> fst (runSimplexIterations cycHeaders 0 cycStart) = UNBOUNDED"
proof -
  from cyc_run obtain s1 its where
    c: "runSimplexIterations cycHeaders 0 cycStart = (UNBOUNDED, s1)" "trace s1 = its"
      "length its = maxIter" "\<forall>st \<in> set its. isIterationStep st" by blast
  from iteration_cap[of cycHeaders 0 cycStart] obtain r s' new where
    t: "runSimplexIterations cycHeaders 0 cycStart = (r, s')" "trace s' = trace cycStart @ new"
      "length (filter isIterationStep new) = maxIter \<longrightarrow>
         r = UNBOUNDED \<and> (\<forall>st \<in> set new. isIterationStep st)" by blast
  from c(1) t(1) have eq: "s' = s1" by simp
  have "new = its" using t(2) c(2) eq by (simp add: cyc_start)
  then have "length (filter isIterationStep new) = maxIter" using c(3,4) by simp
  with t(3) have "r = UNBOUNDED" by simp
  then show ?thesis using t(1) c(2,3,4) eq by simp
qed

lemma run_last:
  assumes "runSimplexIterations hdrs ph s = (r, s')"
  shows "(r = OPTIMAL \<or> r = UNBOUNDED) \<and> trace s' \<noteq> [] \<and>
         (isTerminalStep (last (trace s')) \<or> (r = UNBOUNDED \<and> cappedStep (last (trace s'))))"
proof -
  from assms have run: "loop hdrs ph (length (store s ! (matrix s ! 0))) 0 s = (r, s')"
    by (simp add: runSimplexIterations_def)
  from loop_shape[OF _ run] obtain its fin where
    sh: "trace s' = trace s @ its @ fin"
      "\<forall>k < length its. \<exists>e l row c. description (its ! k) = Iteration (0 + k + 1) e l row c"
      "(fin = [] \<and> r = UNBOUNDED \<and> length its = maxIter) \<or>
       (\<exists>st. fin = [st] \<and> length its < maxIter \<and>
          ((r = OPTIMAL \<and> description st = OptimalFound ph) \<or>
           (r = UNBOUNDED \<and> (\<exists>v. description st = UnboundedDetected v))))"
    by auto
  from sh(3) show ?thesis
  proof
    assume a: "fin = [] \<and> r = UNBOUNDED \<and> length its = maxIter"
    then have ne: "its \<noteq> []" by (auto simp: maxIter_def)
    have "last (trace s') = last its" using sh(1) a ne by simp
    also have "\<dots> = its ! (maxIter - 1)" using ne a by (simp add: last_conv_nth)
    finally have l: "last (trace s') = its ! (maxIter - 1)" .
    have "maxIter - 1 < length its" using a by (simp add: maxIter_def)
    with sh(2) obtain e l' row c where
      "description (its ! (maxIter - 1)) = Iteration (0 + (maxIter - 1) + 1) e l' row c" by blast
    moreover have "0 + (maxIter - 1) + 1 = maxIter" by (simp add: maxIter_def)
    ultimately have "cappedStep (last (trace s'))" using l by (simp add: cappedStep_def)
    then show ?thesis using a sh(1) ne by simp
  next
    assume "\<exists>st. fin = [st] \<and> length its < maxIter \<and>
          ((r = OPTIMAL \<and> description st = OptimalFound ph) \<or>
           (r = UNBOUNDED \<and> (\<exists>v. description st = UnboundedDetected v)))"
    then show ?thesis using sh(1) by (auto simp: isTerminalStep_def)
  qed
qed

lemma those_map_Some: "those (map Some xs) = Some xs"
  by (induction xs) auto

lemma trace_preparePhase2: "trace (preparePhase2 colCount a s) = trace s"
  by (simp add: preparePhase2_def Let_def)

lemma failed_simps:
  "steps (fst (failed st s)) = trace s" "status (fst (failed st s)) = st"
  "finalValues (fst (failed st s)) = Map.empty" "zValue (fst (failed st s)) = 0"
  "snd (failed st s) = store s"
  by (simp_all add: failed_def)

lemma extractResults_simps:
  "steps (fst (extractResults isMin hdrs colCount s)) = trace s"
  "status (fst (extractResults isMin hdrs colCount s)) = OPTIMAL"
  "snd (extractResults isMin hdrs colCount s) = store s"
  by (simp_all add: extractResults_def Let_def)

lemma standard_last:
  "lastStepOk (status (fst (standard isMin hdrs colCount s0)))
     (steps (fst (standard isMin hdrs colCount s0)))"
proof (cases "runSimplexIterations hdrs 0 s0")
  case (Pair res s1)
  from run_last[OF Pair] show ?thesis
    by (auto simp: standard_def Pair lastStepOk_def failed_simps extractResults_simps)
qed

lemma bigM_last:
  "lastStepOk (status (fst (bigM isMin hdrs colCount s0)))
     (steps (fst (bigM isMin hdrs colCount s0)))"
proof (cases "runSimplexIterations hdrs 0 (prepareBigM hdrs colCount s0)")
  case (Pair res s1)
  from run_last[OF Pair] show ?thesis
    by (auto simp: bigM_def Pair lastStepOk_def failed_simps extractResults_simps)
qed

lemma twoPhase_last:
  "lastStepOk (status (fst (twoPhase isMin hdrs colCount s0)))
     (steps (fst (twoPhase isMin hdrs colCount s0)))"
proof (cases "runSimplexIterations hdrs 1 (preparePhase1 hdrs colCount s0)")
  case p1: (Pair phase1Result s1)
  note r1 = run_last[OF p1]
  show ?thesis
  proof (cases "runSimplexIterations hdrs 2 (preparePhase2 colCount (length (store s0)) s1)")
    case p2: (Pair phase2Result s2)
    note r2 = run_last[OF p2]
    have tw: "twoPhase isMin hdrs colCount s0 =
        (if phase1Result = UNBOUNDED then failed UNBOUNDED s1
         else if \<bar>cell s1 0 (colCount - 1)\<bar> > feasTol then failed INFEASIBLE s1
         else if phase2Result \<noteq> OPTIMAL then failed phase2Result s2
         else extractResults isMin hdrs colCount s2)"
      unfolding twoPhase_def p1 p2 prod.case by (rule refl)
    from r1 r2 show ?thesis
      unfolding tw by (auto simp: lastStepOk_def failed_simps extractResults_simps)
  qed
qed

lemma solveCore_last:
  "lastStepOk (status (fst (solveCore method ty objCoeffs cs)))
     (steps (fst (solveCore method ty objCoeffs cs)))"
  by (simp add: solveCore_def Let_def standard_last bigM_last twoPhase_last)

text \<open>
  C8, as amended. When the trace that \<open>solveLinearProgram\<close> returns is not empty, its
  last step is a terminal step (optimal or unbounded), or the last run of the pivot engine
  used up its 50 iterations: then the status is UNBOUNDED and the last step is the plain
  step of iteration 50.
\<close>

theorem final_step_terminal_or_capped:
  "steps (fst (solveLinearProgram method ty objCoeffs constraints)) \<noteq> [] \<longrightarrow>
   isTerminalStep (last (steps (fst (solveLinearProgram method ty objCoeffs constraints)))) \<or>
   (status (fst (solveLinearProgram method ty objCoeffs constraints)) = UNBOUNDED \<and>
    cappedStep (last (steps (fst (solveLinearProgram method ty objCoeffs constraints)))))"
proof (cases "those constraints")
  case None
  then show ?thesis by (simp add: solveLinearProgram_def solveBody_def)
next
  case (Some cs)
  from solveCore_last[of "method" "ty" objCoeffs cs] show ?thesis
    by (simp add: solveLinearProgram_def solveBody_def Some lastStepOk_def)
qed

lemma cyc_result:
  "steps cycResult \<noteq> [] \<and> status cycResult = UNBOUNDED \<and>
   (\<forall>st \<in> set (steps cycResult). isIterationStep st)"
proof -
  from cyc_run obtain s1 its where
    c: "runSimplexIterations cycHeaders 0 cycStart = (UNBOUNDED, s1)" "trace s1 = its"
      "length its = maxIter" "\<forall>st \<in> set its. isIterationStep st" by blast
  have len: "length cycHeaders = 9" by (simp add: cycHeaders_def)
  have "fst (solveCore SIMPLEX OptMAX cycObj cycConstraints) = fst (failed UNBOUNDED s1)"
    using c(1) by (simp add: solveCore_def Let_def cyc_headers standard_def len cycStart_def[symmetric])
  then have r: "cycResult = fst (failed UNBOUNDED s1)"
    by (simp add: cycResult_def solveLinearProgram_def solveBody_def those_map_Some)
  have st: "steps cycResult = its" unfolding r by (simp add: failed_simps c(2))
  have "status cycResult = UNBOUNDED" unfolding r by (simp add: failed_simps)
  moreover have "its \<noteq> []" using c(3) by (auto simp: maxIter_def)
  ultimately show ?thesis using c(4) st by simp
qed

lemma iteration_not_terminal: "isIterationStep st \<Longrightarrow> \<not> isTerminalStep st"
  by (auto simp: isIterationStep_def isTerminalStep_def split: Description.splits)

text \<open>
  C8 as stated fails on the cycling problem: the engine leaves the loop at the cap and
  returns UNBOUNDED without appending a terminal step.
\<close>

theorem final_step_counterexample:
  "steps cycResult \<noteq> [] \<and> \<not> isTerminalStep (last (steps cycResult))"
  using cyc_result iteration_not_terminal by (metis last_in_set)

theorem final_step_terminal_or_capped_witness:
  "steps cycResult \<noteq> [] \<and>
   (isTerminalStep (last (steps cycResult)) \<or>
    (status cycResult = UNBOUNDED \<and> cappedStep (last (steps cycResult))))"
  using final_step_terminal_or_capped[of SIMPLEX OptMAX cycObj "map Some cycConstraints"]
    cyc_result by (simp add: cycResult_def)

section \<open>Selection of the entering column and of the leaving row\<close>

















section \<open>Results of solveLinearProgram\<close>

lemma run_status:
  "fst (runSimplexIterations hdrs ph s) = OPTIMAL \<or> fst (runSimplexIterations hdrs ph s) = UNBOUNDED"
  using run_last[of hdrs ph s] by (cases "runSimplexIterations hdrs ph s") auto

lemma standard_eq:
  "standard isMin hdrs colCount s0 =
     (if fst (runSimplexIterations hdrs 0 s0) \<noteq> OPTIMAL
      then failed (fst (runSimplexIterations hdrs 0 s0)) (snd (runSimplexIterations hdrs 0 s0))
      else extractResults isMin hdrs colCount (snd (runSimplexIterations hdrs 0 s0)))"
  by (simp add: standard_def split: prod.splits)

lemma bigM_eq:
  "bigM isMin hdrs colCount s0 =
     (if fst (runSimplexIterations hdrs 0 (prepareBigM hdrs colCount s0)) \<noteq> OPTIMAL
      then failed (fst (runSimplexIterations hdrs 0 (prepareBigM hdrs colCount s0)))
             (snd (runSimplexIterations hdrs 0 (prepareBigM hdrs colCount s0)))
      else if artInBasis hdrs colCount (snd (runSimplexIterations hdrs 0 (prepareBigM hdrs colCount s0)))
      then failed INFEASIBLE (snd (runSimplexIterations hdrs 0 (prepareBigM hdrs colCount s0)))
      else extractResults isMin hdrs colCount
             (snd (runSimplexIterations hdrs 0 (prepareBigM hdrs colCount s0))))"
  by (simp add: bigM_def split: prod.splits)

lemma twoPhase_eq:
  "twoPhase isMin hdrs colCount s0 =
     (if fst (runSimplexIterations hdrs 1 (preparePhase1 hdrs colCount s0)) = UNBOUNDED
      then failed UNBOUNDED (snd (runSimplexIterations hdrs 1 (preparePhase1 hdrs colCount s0)))
      else if \<bar>cell (snd (runSimplexIterations hdrs 1 (preparePhase1 hdrs colCount s0))) 0
                   (colCount - 1)\<bar> > feasTol
      then failed INFEASIBLE (snd (runSimplexIterations hdrs 1 (preparePhase1 hdrs colCount s0)))
      else if fst (runSimplexIterations hdrs 2 (preparePhase2 colCount (length (store s0))
                 (snd (runSimplexIterations hdrs 1 (preparePhase1 hdrs colCount s0))))) \<noteq> OPTIMAL
      then failed (fst (runSimplexIterations hdrs 2 (preparePhase2 colCount (length (store s0))
                     (snd (runSimplexIterations hdrs 1 (preparePhase1 hdrs colCount s0))))))
                  (snd (runSimplexIterations hdrs 2 (preparePhase2 colCount (length (store s0))
                     (snd (runSimplexIterations hdrs 1 (preparePhase1 hdrs colCount s0))))))
      else extractResults isMin hdrs colCount
             (snd (runSimplexIterations hdrs 2 (preparePhase2 colCount (length (store s0))
                (snd (runSimplexIterations hdrs 1 (preparePhase1 hdrs colCount s0)))))))"
  unfolding twoPhase_def by (simp split: prod.splits)




lemma properResult_failed: "st \<noteq> ERROR \<Longrightarrow> properResult (failed st s)"
  by (simp add: properResult_def failed_simps)

lemma properResult_extractResults: "properResult (extractResults isMin hdrs colCount s)"
  by (simp add: properResult_def extractResults_simps)

lemma run_not_error: "fst (runSimplexIterations hdrs ph s) \<noteq> ERROR"
  using run_status[of hdrs ph s] by auto

lemma properResult_standard: "properResult (standard isMin hdrs colCount s0)"
  unfolding standard_eq
  by (simp add: properResult_failed properResult_extractResults run_not_error)

lemma properResult_bigM: "properResult (bigM isMin hdrs colCount s0)"
  unfolding bigM_eq
  by (simp add: properResult_failed properResult_extractResults run_not_error)

lemma properResult_twoPhase: "properResult (twoPhase isMin hdrs colCount s0)"
  unfolding twoPhase_eq
  by (simp add: properResult_failed properResult_extractResults run_not_error)

lemma properResult_solveCore: "properResult (solveCore method ty objCoeffs cs)"
  by (simp add: solveCore_def Let_def properResult_standard properResult_bigM
        properResult_twoPhase)

text \<open>
  C10. Whenever \<open>solveLinearProgram\<close> returns a status other than OPTIMAL, the returned
  \<open>finalValues\<close> is the empty mapping and \<open>zValue\<close> is 0.
\<close>

theorem non_optimal_result_is_empty:
  "status (fst (solveLinearProgram method ty objCoeffs constraints)) \<noteq> OPTIMAL \<longrightarrow>
   finalValues (fst (solveLinearProgram method ty objCoeffs constraints)) = Map.empty \<and>
   zValue (fst (solveLinearProgram method ty objCoeffs constraints)) = 0"
proof (cases "those constraints")
  case None
  then show ?thesis by (simp add: solveLinearProgram_def solveBody_def)
next
  case (Some cs)
  from properResult_solveCore[of "method" "ty" objCoeffs cs] show ?thesis
    by (simp add: solveLinearProgram_def solveBody_def Some properResult_def)
qed

text \<open>
  C9. \<open>solveLinearProgram\<close> is a total function into results: it returns one of the
  four statuses whatever the input. The status is ERROR exactly when the body of the
  \<open>try\<close> block raised; the result is then the one of the \<open>catch\<close>, with an empty list
  of steps, no values, objective value 0 and the generic message. When the body returns,
  its result is returned.
\<close>

theorem never_raises:
  "(status (fst (solveLinearProgram method ty objCoeffs constraints)) = OPTIMAL \<or>
    status (fst (solveLinearProgram method ty objCoeffs constraints)) = INFEASIBLE \<or>
    status (fst (solveLinearProgram method ty objCoeffs constraints)) = UNBOUNDED \<or>
    status (fst (solveLinearProgram method ty objCoeffs constraints)) = ERROR) \<and>
   ((\<exists>e. solveBody method ty objCoeffs constraints = Inl e) \<longleftrightarrow>
      status (fst (solveLinearProgram method ty objCoeffs constraints)) = ERROR) \<and>
   ((\<exists>e. solveBody method ty objCoeffs constraints = Inl e) \<longrightarrow>
      fst (solveLinearProgram method ty objCoeffs constraints) =
        \<lparr> steps = [], finalValues = Map.empty, zValue = 0, status = ERROR,
          errorMessage = Some ''Error interno de calculo'' \<rparr>) \<and>
   (\<forall>r. solveBody method ty objCoeffs constraints = Inr r \<longrightarrow>
      solveLinearProgram method ty objCoeffs constraints = r)"
proof (cases "those constraints")
  case None
  then show ?thesis by (simp add: solveLinearProgram_def solveBody_def)
next
  case (Some cs)
  from properResult_solveCore[of "method" "ty" objCoeffs cs]
  have ne: "status (fst (solveCore method ty objCoeffs cs)) \<noteq> ERROR"
    by (simp add: properResult_def)
  moreover have "status (fst (solveCore method ty objCoeffs cs)) = OPTIMAL \<or>
    status (fst (solveCore method ty objCoeffs cs)) = INFEASIBLE \<or>
    status (fst (solveCore method ty objCoeffs cs)) = UNBOUNDED \<or>
    status (fst (solveCore method ty objCoeffs cs)) = ERROR"
    by (cases "status (fst (solveCore method ty objCoeffs cs))") simp_all
  ultimately show ?thesis
    by (simp add: solveLinearProgram_def solveBody_def Some)
qed

text \<open>
  A constraint that is \<open>null\<close> at run time makes the body raise.
\<close>

theorem never_raises_witness:
  "solveBody SIMPLEX OptMAX [1] [None] = Inl TypeError \<and>
   fst (solveLinearProgram SIMPLEX OptMAX [1] [None]) =
     \<lparr> steps = [], finalValues = Map.empty, zValue = 0, status = ERROR,
       errorMessage = Some ''Error interno de calculo'' \<rparr>"
proof -
  have b: "solveBody SIMPLEX OptMAX [1] [None] = Inl TypeError"
    by (simp add: solveBody_def)
  then have "\<exists>e. solveBody SIMPLEX OptMAX [1] [None] = Inl e" by blast
  with never_raises[of SIMPLEX OptMAX "[1]" "[None]"] b show ?thesis by blast
qed

lemma infeasible_headers:
  "buildHeaders (length [1::number]) infeasibleConstraints = [''Z'', ''x1'', ''s2'', ''e1'', ''a1'', ''LD'']"
  by code_simp

lemma infeasible_bigM_status:
  "status (fst (solveLinearProgram BIG_M OptMAX [1] (map Some infeasibleConstraints))) = INFEASIBLE"
  by code_simp

text \<open>
  The infeasible system under Big-M.
\<close>

theorem non_optimal_result_is_empty_witness:
  "status (fst (solveLinearProgram BIG_M OptMAX [1] (map Some infeasibleConstraints))) \<noteq> OPTIMAL \<and>
   finalValues (fst (solveLinearProgram BIG_M OptMAX [1] (map Some infeasibleConstraints))) = Map.empty \<and>
   zValue (fst (solveLinearProgram BIG_M OptMAX [1] (map Some infeasibleConstraints))) = 0"
  using non_optimal_result_is_empty[of BIG_M OptMAX "[1]" "map Some infeasibleConstraints"]
    infeasible_bigM_status by simp

section \<open>The Big-M method\<close>






section \<open>The two-phase method\<close>



















lemma length_rows_fillConstraint: "length (rows (fillConstraint rhsCol b ic)) = length (rows b)"
  by (simp add: fillConstraint_def Let_def split: Relation.splits)

lemma length_rows_foldl_fillConstraint:
  "length (rows (foldl (fillConstraint rhsCol) b ics)) = length (rows b)"
  by (induction ics arbitrary: b) (simp_all add: length_rows_fillConstraint)








section \<open>The canonical form after a pivot\<close>













section \<open>Trace steps and the live tableau\<close>

text \<open>
  C4 fails on the code. A \<open>TableauRow\<close> stores \<open>coefficients: matrix[r]\<close>, the row array
  itself, and \<open>rhs\<close> as a number. In the run below the first step is created when row 1
  is \<open>[0, 2, 1, 4]\<close>, and records the RHS 4; the pivot that follows divides that array
  in place, and in the returned result the coefficients of the first step read
  \<open>[0, 1, 1/2, 2]\<close>.
\<close>

theorem recorded_rows_are_live_rows:
  "store (tableauOf OptMAX [1] aliasConstraints) ! 1 = [0, 2, 1, 4] \<and>
   map description (steps (fst aliasResult)) = [Iteration 1 ''x1'' ''s1'' 1 1, OptimalFound 0] \<and>
   rowCoefficients (tableau (steps (fst aliasResult) ! 0) ! 1) = 1 \<and>
   rowRhs (tableau (steps (fst aliasResult) ! 0) ! 1) = 4 \<and>
   snd aliasResult ! rowCoefficients (tableau (steps (fst aliasResult) ! 0) ! 1)
     = [0, 1, 1 / 2, 2]"
  by code_simp

section \<open>The tableau that the solver builds is well formed\<close>

lemma length_setAt: "length row \<le> length (setAt row i v)"
  by (simp add: setAt_def)

lemma length_setAt_in: "i < length row \<Longrightarrow> length (setAt row i v) = length row"
  by (simp add: setAt_def)

lemma length_foldl_setAt:
  "length row \<le> length (foldl (\<lambda>row (i, v). setAt row (f i) (g v)) row xs)"
proof (induction xs arbitrary: row)
  case Nil
  show ?case by simp
next
  case (Cons x xs)
  obtain i v where x: "x = (i, v)" by (cases x)
  have "length row \<le> length (setAt row (f i) (g v))" by (rule length_setAt)
  also have "\<dots> \<le> length (foldl (\<lambda>row (i, v). setAt row (f i) (g v)) (setAt row (f i) (g v)) xs)"
    by (rule Cons.IH)
  finally show ?case by (simp add: x)
qed

lemma fillConstraint_rows:
  assumes "\<forall>row \<in> set (rows b). n \<le> length row" "fst ic + 1 < length (rows b)"
  shows "\<forall>row \<in> set (rows (fillConstraint rhsCol b ic)). n \<le> length row"
proof -
  let ?row = "rows b ! (fst ic + 1)"
  let ?row1 = "foldl (\<lambda>row (colIdx, coef). setAt row (colIdx + 1) coef) ?row
                 (enumerate 0 (coefficients (snd ic)))"
  let ?row2 = "setAt ?row1 rhsCol (rhs (snd ic))"
  from assms have "n \<le> length ?row" by simp
  also have "\<dots> \<le> length ?row1"
    using length_foldl_setAt[of ?row "\<lambda>i. i + 1" "\<lambda>v. v"] by simp
  also have "\<dots> \<le> length ?row2" by (rule length_setAt)
  finally have r2: "n \<le> length ?row2" .
  have up: "n \<le> length (setAt ?row2 i v)" for i v
    using r2 length_setAt[of ?row2 i v] by simp
  have up2: "n \<le> length (setAt (setAt ?row2 i v) j w)" for i v j w
    using up[of i v] length_setAt[of "setAt ?row2 i v" j w] by simp
  have "set ((rows b)[k := x]) \<subseteq> insert x (set (rows b))" for k x
    by (rule set_update_subset_insert)
  with assms(1) have gen: "n \<le> length x \<Longrightarrow> \<forall>row \<in> set ((rows b)[k := x]). n \<le> length row"
    for k x by blast
  show ?thesis
  proof (cases "relation (snd ic)")
    case LE
    then have "rows (fillConstraint rhsCol b ic)
                 = (rows b)[fst ic + 1 := setAt ?row2 (currentSlackIdx b) 1]"
      by (simp add: fillConstraint_def Let_def)
    then show ?thesis using gen[OF up] by simp
  next
    case GE
    then have "rows (fillConstraint rhsCol b ic)
                 = (rows b)[fst ic + 1 := setAt (setAt ?row2 (currentSurplusIdx b) (- 1))
                                           (currentArtificialIdx b) 1]"
      by (simp add: fillConstraint_def Let_def)
    then show ?thesis using gen[OF up2] by simp
  next
    case EQ
    then have "rows (fillConstraint rhsCol b ic)
                 = (rows b)[fst ic + 1 := setAt ?row2 (currentArtificialIdx b) 1]"
      by (simp add: fillConstraint_def Let_def)
    then show ?thesis using gen[OF up] by simp
  qed
qed

lemma length_basis_fillConstraint:
  "length (initialBasis (fillConstraint rhsCol b ic)) = length (initialBasis b) + 1"
  by (simp add: fillConstraint_def Let_def split: Relation.splits)

lemma foldl_fillConstraint_inv:
  assumes "\<forall>row \<in> set (rows b). n \<le> length row" "\<forall>ic \<in> set ics. fst ic + 1 < length (rows b)"
  shows "(\<forall>row \<in> set (rows (foldl (fillConstraint rhsCol) b ics)). n \<le> length row) \<and>
         length (initialBasis (foldl (fillConstraint rhsCol) b ics))
           = length (initialBasis b) + length ics"
  using assms
proof (induction ics arbitrary: b)
  case Nil
  then show ?case by simp
next
  case (Cons ic ics)
  have 1: "\<forall>row \<in> set (rows (fillConstraint rhsCol b ic)). n \<le> length row"
    using fillConstraint_rows[of b n ic rhsCol] Cons.prems by simp
  have 2: "\<forall>ic' \<in> set ics. fst ic' + 1 < length (rows (fillConstraint rhsCol b ic))"
    using Cons.prems(2) by (simp add: length_rows_fillConstraint)
  from Cons.IH[OF 1 2] show ?case
    by (simp add: length_basis_fillConstraint)
qed

lemma wfTableau_initialState:
  "wfTableau colCount (initialState isMin objCoeffs cs colCount)"
proof -
  let ?init = "initialBuilder (length objCoeffs) cs colCount"
  let ?b = "foldl (fillConstraint (colCount - 1)) ?init (enumerate 0 cs)"
  let ?m = "(rows ?b)[0 := objectiveRow isMin objCoeffs (rows ?b ! 0)]"
  have r0: "\<forall>row \<in> set (rows ?init). colCount \<le> length row"
    by (simp add: initialBuilder_def)
  have i0: "\<forall>ic \<in> set (enumerate 0 cs). fst ic + 1 < length (rows ?init)"
    by (auto simp: initialBuilder_def in_set_enumerate_eq)
  note inv = foldl_fillConstraint_inv[OF r0 i0, of "colCount - 1"]
  have rb: "\<forall>row \<in> set (rows ?b). colCount \<le> length row"
    using inv by blast
  have "length (initialBasis ?init) = 0" by (simp add: initialBuilder_def)
  with inv have bb: "length (initialBasis ?b) = length cs"
    by (simp only: length_enumerate)
  have lb: "length (rows ?b) = length cs + 1"
    by (simp add: length_rows_foldl_fillConstraint initialBuilder_def)
  have obj: "colCount \<le> length (objectiveRow isMin objCoeffs (rows ?b ! 0))"
  proof -
    have "colCount \<le> length (rows ?b ! 0)" using rb lb by simp
    also have "\<dots> \<le> length (setAt (rows ?b ! 0) 0 1)" by (rule length_setAt)
    also have "\<dots> \<le> length (objectiveRow isMin objCoeffs (rows ?b ! 0))"
      unfolding objectiveRow_def
      using length_foldl_setAt[of "setAt (rows ?b ! 0) 0 1" "\<lambda>i. i + 1"
          "\<lambda>coef. if isMin then coef else - coef" "enumerate 0 objCoeffs"]
      by simp
    finally show ?thesis .
  qed
  have "set ?m \<subseteq> insert (objectiveRow isMin objCoeffs (rows ?b ! 0)) (set (rows ?b))"
    by (rule set_update_subset_insert)
  with rb obj have rm: "\<forall>row \<in> set ?m. colCount \<le> length row" by blast
  have st: "store (initialState isMin objCoeffs cs colCount) = ?m"
    "matrix (initialState isMin objCoeffs cs colCount) = [0..<length ?m]"
    "basis (initialState isMin objCoeffs cs colCount) = initialBasis ?b"
    by (simp_all add: initialState_def Let_def)
  have la: "list_all (\<lambda>a. a < length ?m \<and> colCount \<le> length (?m ! a)) [0..<length ?m]"
    using rm by (auto simp: list_all_iff)
  show ?thesis
    unfolding wfTableau_def st
  proof (intro conjI)
    show "distinct [0..<length ?m]" by simp
    show "list_all (\<lambda>a. a < length ?m \<and> colCount \<le> length (?m ! a)) [0..<length ?m]"
      by (rule la)
    show "length (initialBasis ?b) + 1 = length [0..<length ?m]"
      using bb lb by simp
  qed
qed


lemma row0_fillConstraint: "rows (fillConstraint rhsCol b ic) ! 0 = rows b ! 0"
  by (simp add: fillConstraint_def Let_def split: Relation.splits)

lemma row0_foldl_fillConstraint: "rows (foldl (fillConstraint rhsCol) b ics) ! 0 = rows b ! 0"
  by (induction ics arbitrary: b) (simp_all add: row0_fillConstraint)

lemma length_foldl_setAt_in:
  "k + length xs < length row \<Longrightarrow>
   length (foldl (\<lambda>row (idx, coef). setAt row (idx + 1) (g coef)) row (enumerate k xs))
     = length row"
proof (induction xs arbitrary: k row)
  case Nil
  show ?case by simp
next
  case (Cons x xs)
  from Cons.prems have in1: "k + 1 < length row" by simp
  then have l1: "length (setAt row (k + 1) (g x)) = length row" by (rule length_setAt_in)
  from Cons.prems l1 have "Suc k + length xs < length (setAt row (k + 1) (g x))" by simp
  from Cons.IH[OF this] l1 show ?case by simp
qed

lemma length_buildHeaders:
  "length (buildHeaders n cs)
     = n + length (slackVars cs) + length (surplusVars cs) + length (artificialVars cs) + 2"
  by (simp add: buildHeaders_def decisionHeaders_def)

lemma initial_colCount:
  "length (store (tableauOf ty objCoeffs cs) ! (matrix (tableauOf ty objCoeffs cs) ! 0))
     = length (buildHeaders (length objCoeffs) cs)"
proof -
  let ?cc = "length (buildHeaders (length objCoeffs) cs)"
  let ?b = "foldl (fillConstraint (?cc - 1)) (initialBuilder (length objCoeffs) cs ?cc)
              (enumerate 0 cs)"
  have r0: "rows ?b ! 0 = replicate ?cc 0"
    by (simp add: row0_foldl_fillConstraint initialBuilder_def)
  have big: "length objCoeffs + 1 < ?cc" by (simp add: length_buildHeaders)
  then have l1: "length (setAt (replicate ?cc 0) 0 (1::number)) = ?cc"
    by (auto simp: setAt_def)
  have "length (objectiveRow (ty = OptMIN) objCoeffs (replicate ?cc 0)) = ?cc"
    unfolding objectiveRow_def
    using length_foldl_setAt_in[of 0 objCoeffs "setAt (replicate ?cc 0) 0 1"
        "\<lambda>coef. if ty = OptMIN then coef else - coef"] big l1
    by simp
  then have obj: "length (objectiveRow (ty = OptMIN) objCoeffs (rows ?b ! 0)) = ?cc"
    unfolding r0 .
  have pos: "0 < length (rows ?b)"
    by (simp add: length_rows_foldl_fillConstraint initialBuilder_def)
  have st: "store (tableauOf ty objCoeffs cs)
              = (rows ?b)[0 := objectiveRow (ty = OptMIN) objCoeffs (rows ?b ! 0)]"
    "matrix (tableauOf ty objCoeffs cs) = [0..<length (rows ?b)]"
    by (simp_all add: tableauOf_def initialState_def Let_def)
  have m0: "matrix (tableauOf ty objCoeffs cs) ! 0 = 0"
    unfolding st using pos by (simp only: nth_upt)
  have "store (tableauOf ty objCoeffs cs) ! 0
          = objectiveRow (ty = OptMIN) objCoeffs (rows ?b ! 0)"
    unfolding st using pos by (simp only: nth_list_update_eq)
  then show ?thesis unfolding m0 using obj by simp
qed

lemma standard_run_wellformed:
  "runSimplexIterations (buildHeaders (length objCoeffs) cs) ph (tableauOf ty objCoeffs cs)
     = loop (buildHeaders (length objCoeffs) cs) ph (length (buildHeaders (length objCoeffs) cs)) 0
         (tableauOf ty objCoeffs cs) \<and>
   wfTableau (length (buildHeaders (length objCoeffs) cs)) (tableauOf ty objCoeffs cs)"
proof (intro conjI)
  show "runSimplexIterations (buildHeaders (length objCoeffs) cs) ph (tableauOf ty objCoeffs cs)
     = loop (buildHeaders (length objCoeffs) cs) ph (length (buildHeaders (length objCoeffs) cs)) 0
         (tableauOf ty objCoeffs cs)"
    unfolding runSimplexIterations_def initial_colCount by (rule refl)
  show "wfTableau (length (buildHeaders (length objCoeffs) cs)) (tableauOf ty objCoeffs cs)"
    by (simp add: tableauOf_def wfTableau_initialState)
qed

end
